theory Spec2Isabelle
  imports Main "HOL-Library.Sublist"
begin

text \<open>
  A model of the command line parser of \<^verbatim>\<open>argparser.hpp\<close> and \<^verbatim>\<open>argparser.tpp\<close> in
  its version with positional and keyword options: the option classes, the free functions
  \<^verbatim>\<open>impl::match_option\<close>, \<^verbatim>\<open>impl::handle_match\<close> and \<^verbatim>\<open>parse\<close>, and the member
  \<^verbatim>\<open>ArgParser::parse\<close> of the version before it, which has the same matcher and
  consumer. Option objects live in a store and the registry holds their addresses, as the
  \<^verbatim>\<open>std::vector<OptionBase *>\<close> does; every function that mutates an object takes the
  store and returns it, also when it throws.
\<close>

section \<open>Exceptions\<close>

text \<open>
  The parser reports failures by throwing \<^verbatim>\<open>std::invalid_argument\<close> and
  \<^verbatim>\<open>std::out_of_range\<close>, each with a message. A third outcome stands for the
  undefined behaviour of C++ (reading \<^verbatim>\<open>argv\<close> or a vector outside its bounds,
  overflow of a signed \<^verbatim>\<open>int\<close>): the model stops there instead of inventing a
  result.
\<close>

datatype error =
    invalid_argument string
  | out_of_range string
  | undefined_behaviour

fun what :: "error \<Rightarrow> string" where
  "what (invalid_argument msg) = msg"
| "what (out_of_range msg) = msg"
| "what undefined_behaviour = []"

text \<open>The three failures of the specification, as the code throws them.\<close>

definition ConversionError :: error where
  "ConversionError = invalid_argument ''Could not parse the data.''"

definition InsufficientArgumentsError :: error where
  "InsufficientArgumentsError = out_of_range ''Not enough arguments.''"

definition InvalidArityError :: error where
  "InvalidArityError = invalid_argument ''Invalid number of requested parameters.''"

text \<open>An error names an identifier when the identifier occurs in its message.\<close>

definition names_identifier :: "error \<Rightarrow> string \<Rightarrow> bool" where
  "names_identifier e ident = sublist ident (what e)"

section \<open>Stream extraction of an \<^verbatim>\<open>int\<close>\<close>

text \<open>
  \<^verbatim>\<open>std::istringstream iss(str); iss >> val; if (!iss) throw ...\<close>
  with \<^verbatim>\<open>val\<close> an \<^verbatim>\<open>int\<close>. The extraction operator belongs to the C++ standard
  library; the model follows the standard as of C++11 (the sources use
  \<^verbatim>\<open>std::string_view\<close>, so C++17 at least), in the classic locale and decimal base:
  \<^item> the sentry skips leading white space; when nothing is left it sets
    \<^verbatim>\<open>failbit\<close> and the operator returns without touching \<^verbatim>\<open>val\<close>;
  \<^item> otherwise an optional sign and the longest run of decimal digits are read; reading
    stops in front of the first other character, which stays in the stream;
  \<^item> with no digit read, \<^verbatim>\<open>val\<close> becomes 0 and \<^verbatim>\<open>failbit\<close> is set;
  \<^item> a number outside the range of \<^verbatim>\<open>int\<close> stores the nearest bound and sets
    \<^verbatim>\<open>failbit\<close>;
  \<^item> otherwise the number is stored and \<^verbatim>\<open>failbit\<close> stays clear, whatever follows
    the digits.
  \<^verbatim>\<open>!iss\<close> is \<^verbatim>\<open>iss.fail()\<close>: it looks at \<^verbatim>\<open>failbit\<close> and \<^verbatim>\<open>badbit\<close>, not
  at \<^verbatim>\<open>eofbit\<close>, so it does not tell whether the whole string was read.
  An \<^verbatim>\<open>int\<close> has 32 bits. Indices, counts and arities are \<^verbatim>\<open>int\<close>s as well; they
  are modelled by unbounded integers, and the one sum that can leave the range on a call
  that \<^verbatim>\<open>parse\<close> makes is checked in \<open>handle_match\<close>.
\<close>

definition INT_MAX :: int where
  "INT_MAX = 2147483647"

definition INT_MIN :: int where
  "INT_MIN = - 2147483648"

definition isspace :: "char \<Rightarrow> bool" where
  "isspace c = (c \<in> set [CHR '' '', CHR 0x09, CHR 0x0A, CHR 0x0B, CHR 0x0C, CHR 0x0D])"

definition isdigit :: "char \<Rightarrow> bool" where
  "isdigit c = (c \<in> set ''0123456789'')"

definition digit_val :: "char \<Rightarrow> int" where
  "digit_val c = int (of_char c) - 48"

fun digits_val :: "int \<Rightarrow> string \<Rightarrow> int" where
  "digits_val acc [] = acc"
| "digits_val acc (c # cs) = digits_val (10 * acc + digit_val c) cs"

text \<open>The result is the pair of \<^verbatim>\<open>iss.fail()\<close> and the new content of \<^verbatim>\<open>val\<close>.\<close>

definition extract_int :: "string \<Rightarrow> int \<Rightarrow> bool \<times> int" where
  "extract_int str val =
     (let s = dropWhile isspace str in
      if s = [] then (True, val)
      else
        let neg = (hd s = CHR ''-'');
            r = (if hd s = CHR ''-'' \<or> hd s = CHR ''+'' then tl s else s);
            ds = takeWhile isdigit r
        in if ds = [] then (True, 0)
           else
             let l = (if neg then - digits_val 0 ds else digits_val 0 ds)
             in if l < INT_MIN then (True, INT_MIN)
                else if INT_MAX < l then (True, INT_MAX)
                else (False, l))"

section \<open>Option objects\<close>

datatype Type = POSITIONAL | KEYWORD

text \<open>
  The concrete classes below \<^verbatim>\<open>OptionBase\<close>, with their fields. The class templates
  \<^verbatim>\<open>PositionalOption<T>\<close> and \<^verbatim>\<open>KeywordOption<T>\<close> are taken at \<^verbatim>\<open>T = int\<close> for
  the generic definition (conversion by stream extraction) and at their specialisations
  \<^verbatim>\<open>std::string\<close> and \<^verbatim>\<open>bool\<close>.
\<close>

text \<open>
  Modelled from the spec: \<open>VariadicOption\<close>, the keyword descriptor for variadic string
  capture. \<^verbatim>\<open>get_param_count\<close> is virtual and documented to return a count or \<^verbatim>\<open>-1\<close>
  ("requires all remaining arguments"), but no class of the sources returns anything
  but 0 or 1. \<open>VariadicOption\<close> stores its declared arity (so that every branch of
  \<^verbatim>\<open>handle_match\<close> can be reached), matches by identifier as keyword options do, and keeps
  the text of the tokens that follow the matched one.
\<close>

datatype derived =
    PositionalOption_int string string bool int
  | PositionalOption_string string string bool string
  | KeywordOption_int "string list" string int
  | KeywordOption_string "string list" string string
  | KeywordOption_bool "string list" string bool
  | VariadicOption "string list" string int "string list"

record OptionBase =
  is_set :: bool
  obj :: derived

text \<open>
  The field \<^verbatim>\<open>is_set_\<close> is written \<open>is_set\<close>, as its accessor \<^verbatim>\<open>is_set()\<close>.
  Constructors: \<^verbatim>\<open>OptionBase::OptionBase() : is_set_(false)\<close>; the derived classes
  store their arguments.
\<close>

definition PositionalOption_int_new :: "string \<Rightarrow> string \<Rightarrow> bool \<Rightarrow> int \<Rightarrow> OptionBase" where
  "PositionalOption_int_new name help is_required val =
     \<lparr>is_set = False, obj = PositionalOption_int name help is_required val\<rparr>"

definition PositionalOption_string_new :: "string \<Rightarrow> string \<Rightarrow> bool \<Rightarrow> string \<Rightarrow> OptionBase" where
  "PositionalOption_string_new name help is_required val =
     \<lparr>is_set = False, obj = PositionalOption_string name help is_required val\<rparr>"

definition KeywordOption_int_new :: "string list \<Rightarrow> string \<Rightarrow> int \<Rightarrow> OptionBase" where
  "KeywordOption_int_new identifiers help val =
     \<lparr>is_set = False, obj = KeywordOption_int identifiers help val\<rparr>"

definition KeywordOption_string_new :: "string list \<Rightarrow> string \<Rightarrow> string \<Rightarrow> OptionBase" where
  "KeywordOption_string_new identifiers help val =
     \<lparr>is_set = False, obj = KeywordOption_string identifiers help val\<rparr>"

definition KeywordOption_bool_new :: "string list \<Rightarrow> string \<Rightarrow> bool \<Rightarrow> OptionBase" where
  "KeywordOption_bool_new identifiers help val =
     \<lparr>is_set = False, obj = KeywordOption_bool identifiers help val\<rparr>"

definition VariadicOption_new :: "string list \<Rightarrow> string \<Rightarrow> int \<Rightarrow> OptionBase" where
  "VariadicOption_new identifiers help arity =
     \<lparr>is_set = False, obj = VariadicOption identifiers help arity []\<rparr>"

fun get_type :: "derived \<Rightarrow> Type" where
  "get_type (PositionalOption_int _ _ _ _) = POSITIONAL"
| "get_type (PositionalOption_string _ _ _ _) = POSITIONAL"
| "get_type (KeywordOption_int _ _ _) = KEYWORD"
| "get_type (KeywordOption_string _ _ _) = KEYWORD"
| "get_type (KeywordOption_bool _ _ _) = KEYWORD"
| "get_type (VariadicOption _ _ _ _) = KEYWORD"

text \<open>\<^verbatim>\<open>NUM_OPTS\<close> is 1, and 0 for \<^verbatim>\<open>KeywordOption<bool>\<close>.\<close>

fun get_param_count :: "derived \<Rightarrow> int" where
  "get_param_count (PositionalOption_int _ _ _ _) = 0"
| "get_param_count (PositionalOption_string _ _ _ _) = 0"
| "get_param_count (KeywordOption_int _ _ _) = 1"
| "get_param_count (KeywordOption_string _ _ _) = 1"
| "get_param_count (KeywordOption_bool _ _ _) = 0"
| "get_param_count (VariadicOption _ _ arity _) = arity"

text \<open>
  The field \<^verbatim>\<open>identifiers\<close> of \<^verbatim>\<open>KeywordOptionBase\<close>; a positional option has a
  name and no identifiers.
\<close>

fun get_identifiers :: "derived \<Rightarrow> string list" where
  "get_identifiers (PositionalOption_int _ _ _ _) = []"
| "get_identifiers (PositionalOption_string _ _ _ _) = []"
| "get_identifiers (KeywordOption_int ids _ _) = ids"
| "get_identifiers (KeywordOption_string ids _ _) = ids"
| "get_identifiers (KeywordOption_bool ids _ _) = ids"
| "get_identifiers (VariadicOption ids _ _ _) = ids"

text \<open>The loop of \<^verbatim>\<open>KeywordOption<T>::matches\<close> over the identifiers.\<close>

fun matches_identifiers :: "string list \<Rightarrow> string \<Rightarrow> bool" where
  "matches_identifiers [] identifier = False"
| "matches_identifiers (ident # identifiers) identifier =
     (if ident = identifier then True else matches_identifiers identifiers identifier)"

definition matches :: "OptionBase \<Rightarrow> string \<Rightarrow> bool" where
  "matches opt identifier =
     (case obj opt of
        PositionalOption_int _ _ _ _ \<Rightarrow> \<not> is_set opt
      | PositionalOption_string _ _ _ _ \<Rightarrow> \<not> is_set opt
      | KeywordOption_int identifiers _ _ \<Rightarrow> matches_identifiers identifiers identifier
      | KeywordOption_string identifiers _ _ \<Rightarrow> matches_identifiers identifiers identifier
      | KeywordOption_bool identifiers _ _ \<Rightarrow> matches_identifiers identifiers identifier
      | VariadicOption identifiers _ _ _ \<Rightarrow> matches_identifiers identifiers identifier)"

text \<open>
  \<^verbatim>\<open>from_string\<close>: the left result is the exception thrown, with the object as the
  throw leaves it. \<^verbatim>\<open>strings[k]\<close> on a vector that is too short is undefined.
\<close>

fun from_string :: "derived \<Rightarrow> string list \<Rightarrow> (error \<times> derived) + derived" where
  "from_string (PositionalOption_int name help is_required val) strings =
     (case strings of
        [] \<Rightarrow> Inl (undefined_behaviour, PositionalOption_int name help is_required val)
      | str # _ \<Rightarrow>
          (case extract_int str val of
             (True, val') \<Rightarrow>
               Inl (invalid_argument ''Could not parse the data.'',
                    PositionalOption_int name help is_required val')
           | (False, val') \<Rightarrow> Inr (PositionalOption_int name help is_required val')))"
| "from_string (PositionalOption_string name help is_required val) strings =
     (case strings of
        [] \<Rightarrow> Inl (undefined_behaviour, PositionalOption_string name help is_required val)
      | str # _ \<Rightarrow> Inr (PositionalOption_string name help is_required str))"
| "from_string (KeywordOption_int identifiers help val) strings =
     (case strings of
        _ # str # _ \<Rightarrow>
          (case extract_int str val of
             (True, val') \<Rightarrow>
               Inl (invalid_argument ''Could not parse the data.'',
                    KeywordOption_int identifiers help val')
           | (False, val') \<Rightarrow> Inr (KeywordOption_int identifiers help val'))
      | _ \<Rightarrow> Inl (undefined_behaviour, KeywordOption_int identifiers help val))"
| "from_string (KeywordOption_string identifiers help val) strings =
     (case strings of
        _ # str # _ \<Rightarrow> Inr (KeywordOption_string identifiers help str)
      | _ \<Rightarrow> Inl (undefined_behaviour, KeywordOption_string identifiers help val))"
| "from_string (KeywordOption_bool identifiers help val) strings =
     Inr (KeywordOption_bool identifiers help True)"
| "from_string (VariadicOption identifiers help arity val) strings =
     Inr (VariadicOption identifiers help arity (tl strings))"

text \<open>
  \<^verbatim>\<open>OptionBase::parse\<close>: \<^verbatim>\<open>this->from_string(strings); is_set_ = true;\<close>. When
  \<^verbatim>\<open>from_string\<close> throws, the assignment is not reached.
\<close>

definition OptionBase_parse :: "OptionBase \<Rightarrow> string list \<Rightarrow> (error \<times> OptionBase) + OptionBase" where
  "OptionBase_parse opt strings =
     (case from_string (obj opt) strings of
        Inl (e, d) \<Rightarrow> Inl (e, opt\<lparr>obj := d\<rparr>)
      | Inr d \<Rightarrow> Inr (opt\<lparr>obj := d, is_set := True\<rparr>))"

section \<open>The registry and the matcher\<close>

text \<open>
  The registry is a \<^verbatim>\<open>std::vector<OptionBase *>\<close>: a list of addresses. The objects
  live in a store that the parse mutates; the same address may be registered twice. Every
  address holds an object (the header requires the options to outlive the parse).
\<close>

type_synonym addr = nat
type_synonym heap = "addr \<Rightarrow> OptionBase"

record split_options =
  positional :: "addr list"
  keyword :: "addr list"

text \<open>The constructor of \<^verbatim>\<open>split_options\<close>: one pass, \<^verbatim>\<open>push_back\<close> by type.\<close>

fun split_options_loop :: "heap \<Rightarrow> addr list \<Rightarrow> split_options \<Rightarrow> split_options" where
  "split_options_loop h [] so = so"
| "split_options_loop h (opt # options) so =
     split_options_loop h options
       (case get_type (obj (h opt)) of
          POSITIONAL \<Rightarrow> so\<lparr>positional := positional so @ [opt]\<rparr>
        | KEYWORD \<Rightarrow> so\<lparr>keyword := keyword so @ [opt]\<rparr>)"

definition split_options_new :: "heap \<Rightarrow> addr list \<Rightarrow> split_options" where
  "split_options_new h options = split_options_loop h options \<lparr>positional = [], keyword = []\<rparr>"

text \<open>\<^verbatim>\<open>for (auto opt : xs) if (opt->matches(arg)) return opt;\<close>\<close>

fun first_match :: "heap \<Rightarrow> string \<Rightarrow> addr list \<Rightarrow> addr option" where
  "first_match h arg [] = None"
| "first_match h arg (opt # xs) =
     (if matches (h opt) arg then Some opt else first_match h arg xs)"

text \<open>\<^verbatim>\<open>impl::match_option\<close>; \<open>None\<close> is \<^verbatim>\<open>nullptr\<close>.\<close>

definition match_option :: "string \<Rightarrow> addr list \<Rightarrow> heap \<Rightarrow> addr option" where
  "match_option arg opts h =
     (let split_opts = split_options_new h opts in
      case first_match h arg (keyword split_opts) of
        Some opt \<Rightarrow> Some opt
      | None \<Rightarrow> first_match h arg (positional split_opts))"

section \<open>Consuming the parameters of a match\<close>

definition argv_at :: "string list \<Rightarrow> int \<Rightarrow> string option" where
  "argv_at argv i = (if 0 \<le> i \<and> i < int (length argv) then Some (argv ! nat i) else None)"

text \<open>
  \<^verbatim>\<open>for (int end = ...; i < end; i++) opts.push_back(std::string_view(argv[i]));\<close>
  The result is the vector and the final \<^verbatim>\<open>i\<close>; \<open>None\<close> when a read leaves \<^verbatim>\<open>argv\<close>.
\<close>

function collect :: "int \<Rightarrow> int \<Rightarrow> string list \<Rightarrow> string list \<Rightarrow> (string list \<times> int) option" where
  "collect i end argv opts =
     (if i < end then
        (case argv_at argv i of
           None \<Rightarrow> None
         | Some s \<Rightarrow> collect (i + 1) end argv (opts @ [s]))
      else Some (opts, i))"
  by pat_completeness auto
termination
  by (relation "measure (\<lambda>(i, end, argv, opts). nat (end - i))") auto

declare collect.simps [simp del]

text \<open>
  \<^verbatim>\<open>impl::handle_match\<close>. \<^verbatim>\<open>i\<close> is passed by reference: the right result holds its
  value on return. The sum \<^verbatim>\<open>i + param_count\<close> of two \<^verbatim>\<open>int\<close>s is undefined when
  it exceeds \<^verbatim>\<open>INT_MAX\<close>.
\<close>

definition handle_match :: "int \<Rightarrow> addr \<Rightarrow> int \<Rightarrow> string list \<Rightarrow> heap \<Rightarrow> (error \<times> heap) + (int \<times> heap)" where
  "handle_match i opt argc argv h =
     (let param_count = get_param_count (obj (h opt)) in
      if param_count < - 1 then
        Inl (invalid_argument ''Invalid number of requested parameters.'', h)
      else
        let param_count = (if param_count = - 1 then argc - i - 1 else param_count) in
        if INT_MAX < i + param_count then Inl (undefined_behaviour, h)
        else if i + param_count \<ge> argc then Inl (out_of_range ''Not enough arguments.'', h)
        else
          (case collect i (i + param_count + 1) argv [] of
             None \<Rightarrow> Inl (undefined_behaviour, h)
           | Some (opts, i') \<Rightarrow>
               (case OptionBase_parse (h opt) opts of
                  Inl (e, o') \<Rightarrow> Inl (e, h(opt := o'))
                | Inr o' \<Rightarrow> Inr (i' - 1, h(opt := o')))))"

section \<open>The parse driver\<close>

lemma collect_index:
  "collect i e argv acc = Some (opts, i') \<Longrightarrow> i' = max i e"
proof (induction i e argv acc rule: collect.induct)
  case (1 i e argv acc)
  then show ?case
    by (subst (asm) (2) collect.simps) (auto split: if_splits option.splits)
qed

lemma handle_match_advances:
  assumes "handle_match i opt argc argv h = Inr (i', h')" and "i < argc"
  shows "i \<le> i'"
  using assms
  by (auto simp: handle_match_def Let_def split: if_splits option.splits sum.splits prod.splits
      dest!: collect_index)

text \<open>
  The loop of \<^verbatim>\<open>parse\<close>:
  \<^verbatim>\<open>for (int i = skip_first_n; i < argc; i++) { ... handle_match(i, ...) ... }\<close>.
  \<^verbatim>\<open>handle_match\<close> leaves \<^verbatim>\<open>i\<close> on the last token it consumed and the loop's
  \<^verbatim>\<open>i++\<close> steps past it. An exception leaves the loop with the vector of unrecognised
  tokens and the store as they are at the throw.
\<close>

function parse_loop ::
  "int \<Rightarrow> int \<Rightarrow> string list \<Rightarrow> addr list \<Rightarrow> string list \<Rightarrow> heap
     \<Rightarrow> (error \<times> string list \<times> heap) + (string list \<times> heap)" where
  "parse_loop i argc argv opts unrecognised h =
     (if i < argc then
        (case argv_at argv i of
           None \<Rightarrow> Inl (undefined_behaviour, unrecognised, h)
         | Some arg \<Rightarrow>
             (case match_option arg opts h of
                Some opt \<Rightarrow>
                  (case handle_match i opt argc argv h of
                     Inl (e, h') \<Rightarrow> Inl (e, unrecognised, h')
                   | Inr (i', h') \<Rightarrow> parse_loop (i' + 1) argc argv opts unrecognised h')
              | None \<Rightarrow> parse_loop (i + 1) argc argv opts (unrecognised @ [arg]) h))
      else Inr (unrecognised, h))"
  by pat_completeness auto
termination
  by (relation "measure (\<lambda>(i, argc, argv, opts, unrecognised, h). nat (argc - i))")
     (auto dest: handle_match_advances)

declare parse_loop.simps [simp del]

text \<open>
  The free function \<^verbatim>\<open>parse\<close>: the vector is a local, empty at the start and lost
  when an exception leaves the function.
\<close>

definition parse ::
  "int \<Rightarrow> string list \<Rightarrow> addr list \<Rightarrow> int \<Rightarrow> heap \<Rightarrow> (error \<times> heap) + (string list \<times> heap)" where
  "parse argc argv opts skip_first_n h =
     (case parse_loop skip_first_n argc argv opts [] h of
        Inl (e, unrecognised, h') \<Rightarrow> Inl (e, h')
      | Inr r \<Rightarrow> Inr r)"




section \<open>The specification's scan, and examples\<close>




text \<open>A store for examples: the objects of the list at the addresses 0, 1, 2, ...\<close>

definition heap_of :: "OptionBase list \<Rightarrow> heap" where
  "heap_of os p = (if p < length os then os ! p else VariadicOption_new [] [] 0)"



text \<open>The equations that evaluate the model on concrete input.\<close>

lemmas eval_defs =
  parse_def parse_loop.simps argv_at_def match_option_def split_options_new_def matches_def
  handle_match_def collect.simps OptionBase_parse_def heap_of_def INT_MAX_def INT_MIN_def
  extract_int_def isspace_def isdigit_def digit_val_def
  PositionalOption_int_new_def PositionalOption_string_new_def KeywordOption_int_new_def
  KeywordOption_string_new_def KeywordOption_bool_new_def VariadicOption_new_def
  ConversionError_def InsufficientArgumentsError_def InvalidArityError_def

section \<open>Conversion of numbers\<close>

lemma isdigit_not_isspace: "isdigit c \<Longrightarrow> \<not> isspace c"
  by (auto simp: isdigit_def isspace_def)

lemma isdigit_not_sign: "isdigit c \<Longrightarrow> c \<noteq> CHR ''-'' \<and> c \<noteq> CHR ''+''"
  by (auto simp: isdigit_def)

lemma sign_not_isspace: "\<not> isspace CHR ''-''" "\<not> isspace CHR ''+''"
  by (simp_all add: isspace_def)

lemma digit_val_nonneg: "isdigit c \<Longrightarrow> 0 \<le> digit_val c"
  by (auto simp: isdigit_def digit_val_def)

lemma digits_val_nonneg: "list_all isdigit ds \<Longrightarrow> 0 \<le> acc \<Longrightarrow> 0 \<le> digits_val acc ds"
proof (induction ds arbitrary: acc)
  case Nil
  then show ?case by simp
next
  case (Cons c cs)
  have "0 \<le> digit_val c" using Cons.prems(1) by (simp add: digit_val_nonneg)
  then have "0 \<le> 10 * acc + digit_val c" using Cons.prems(2) by simp
  moreover have "list_all isdigit cs" using Cons.prems(1) by simp
  ultimately show ?case using Cons.IH by simp
qed

lemma takeWhile_digits:
  "list_all isdigit ds \<Longrightarrow> rest = [] \<or> \<not> isdigit (hd rest) \<Longrightarrow> takeWhile isdigit (ds @ rest) = ds"
  by (cases rest) (auto simp: list_all_iff)

text \<open>Leading white space is skipped before anything else happens.\<close>

lemma extract_int_skip_ws:
  assumes "list_all isspace ws"
  shows "extract_int (ws @ tok) val = extract_int tok val"
proof -
  have "dropWhile isspace (ws @ tok) = dropWhile isspace tok"
    using assms by (simp add: list_all_iff)
  then show ?thesis by (simp add: extract_int_def)
qed

text \<open>A token that starts with a number: the number is stored, or the bound it exceeds.\<close>

lemma extract_int_signed:
  assumes "sg = [] \<or> sg = ''+'' \<or> sg = ''-''"
    and "ds \<noteq> []" and "list_all isdigit ds"
    and "rest = [] \<or> \<not> isdigit (hd rest)"
    and "n = (if sg = ''-'' then - digits_val 0 ds else digits_val 0 ds)"
  shows "extract_int (sg @ ds @ rest) val =
     (if n < INT_MIN then (True, INT_MIN) else if INT_MAX < n then (True, INT_MAX) else (False, n))"
proof -
  obtain d ds' where ds: "ds = d # ds'" using assms(2) by (cases ds) auto
  have d: "isdigit d" using assms(3) ds by simp
  have tw: "takeWhile isdigit (ds @ rest) = ds"
    using assms(3,4) by (rule takeWhile_digits)
  have nospace: "\<not> isspace d" "\<not> isspace CHR ''+''" "\<not> isspace CHR ''-''"
    using d isdigit_not_isspace by (simp_all add: isspace_def)
  have nosign: "d \<noteq> CHR ''-''" "d \<noteq> CHR ''+''"
    using d isdigit_not_sign by auto
  from assms(1) show ?thesis
  proof (elim disjE)
    assume "sg = []"
    then show ?thesis
      using tw nospace nosign assms(2,5) unfolding extract_int_def ds by simp
  next
    assume "sg = ''+''"
    then show ?thesis
      using tw nospace assms(2,5) unfolding extract_int_def by simp
  next
    assume "sg = ''-''"
    then show ?thesis
      using tw nospace assms(2,5) unfolding extract_int_def by simp
  qed
qed

lemma extract_int_number:
  assumes "list_all isspace ws" and "sg = [] \<or> sg = ''+'' \<or> sg = ''-''"
    and "ds \<noteq> []" and "list_all isdigit ds"
    and "rest = [] \<or> \<not> isdigit (hd rest)"
    and "n = (if sg = ''-'' then - digits_val 0 ds else digits_val 0 ds)"
  shows "extract_int (ws @ sg @ ds @ rest) val =
     (if n < INT_MIN then (True, INT_MIN) else if INT_MAX < n then (True, INT_MAX) else (False, n))"
  unfolding extract_int_skip_ws[OF assms(1)] using assms(2-6) by (rule extract_int_signed)

text \<open>
  A token in which no digit follows the white space and the sign, if there is one: the
  extraction fails and stores 0.
\<close>

lemma extract_int_no_digit:
  assumes "body \<noteq> []" and "\<not> isspace (hd body)" and "\<not> isdigit (hd body)"
    and "hd body = CHR ''-'' \<or> hd body = CHR ''+'' \<longrightarrow> tl body = [] \<or> \<not> isdigit (hd (tl body))"
  shows "extract_int body val = (True, 0)"
proof -
  obtain c r where body: "body = c # r" using assms(1) by (cases body) auto
  have c: "\<not> isspace c" "\<not> isdigit c" using assms(2,3) body by simp_all
  show ?thesis
  proof (cases "c = CHR ''-'' \<or> c = CHR ''+''")
    case True
    then have "r = [] \<or> \<not> isdigit (hd r)" using assms(4) body by simp
    then have "takeWhile isdigit r = []" by (cases r) auto
    then show ?thesis
      using True c unfolding extract_int_def body by auto
  next
    case False
    then show ?thesis
      using c unfolding extract_int_def body by simp
  qed
qed

lemma extract_int_digitless:
  assumes "list_all isspace ws"
    and "body \<noteq> []" and "\<not> isspace (hd body)" and "\<not> isdigit (hd body)"
    and "hd body = CHR ''-'' \<or> hd body = CHR ''+'' \<longrightarrow> tl body = [] \<or> \<not> isdigit (hd (tl body))"
  shows "extract_int (ws @ body) val = (True, 0)"
  unfolding extract_int_skip_ws[OF assms(1)] using assms(2-5) by (rule extract_int_no_digit)

text \<open>An empty or blank token: the extraction fails and stores nothing.\<close>

lemma extract_int_blank: "list_all isspace tok \<Longrightarrow> extract_int tok val = (True, val)"
proof -
  assume "list_all isspace tok"
  then have "dropWhile isspace tok = []"
    by (simp add: list_all_iff)
  then show ?thesis
    by (simp add: extract_int_def)
qed

text \<open>Every token is of one of the three kinds.\<close>

lemma token_kinds:
  "list_all isspace tok \<or>
   (\<exists>ws body. tok = ws @ body \<and> list_all isspace ws \<and> body \<noteq> [] \<and>
      \<not> isspace (hd body) \<and> \<not> isdigit (hd body) \<and>
      (hd body = CHR ''-'' \<or> hd body = CHR ''+'' \<longrightarrow>
         tl body = [] \<or> \<not> isdigit (hd (tl body)))) \<or>
   (\<exists>ws sg ds rest. tok = ws @ sg @ ds @ rest \<and> list_all isspace ws \<and>
      (sg = [] \<or> sg = ''+'' \<or> sg = ''-'') \<and> ds \<noteq> [] \<and> list_all isdigit ds \<and>
      (rest = [] \<or> \<not> isdigit (hd rest)))"
proof -
  define ws where "ws = takeWhile isspace tok"
  define body where "body = dropWhile isspace tok"
  have tok: "tok = ws @ body" by (simp add: ws_def body_def)
  have ws: "list_all isspace ws"
    unfolding ws_def list_all_iff by (auto dest: set_takeWhileD)
  have split: "r = takeWhile isdigit r @ dropWhile isdigit r" for r :: string by simp
  have tw: "list_all isdigit (takeWhile isdigit r)" for r :: string
    unfolding list_all_iff by (auto dest: set_takeWhileD)
  have dw: "dropWhile isdigit r = [] \<or> \<not> isdigit (hd (dropWhile isdigit r))" for r :: string
    using hd_dropWhile[of isdigit r] by blast
  show ?thesis
  proof (cases "body = []")
    case True
    then show ?thesis using tok ws by simp
  next
    case False
    then obtain c r where body: "body = c # r" by (cases body) auto
    have c: "\<not> isspace c"
      using hd_dropWhile[of isspace tok] False body unfolding body_def by auto
    show ?thesis
    proof (cases "isdigit c")
      case True
      then have ne: "takeWhile isdigit body \<noteq> []" using body by simp
      have "tok = ws @ [] @ takeWhile isdigit body @ dropWhile isdigit body"
        using tok by simp
      then show ?thesis
        using ws ne tw[of body] dw[of body] by blast
    next
      case nd: False
      show ?thesis
      proof (cases "(c = CHR ''-'' \<or> c = CHR ''+'') \<and> r \<noteq> [] \<and> isdigit (hd r)")
        case True
        then have ne: "takeWhile isdigit r \<noteq> []" by (cases r) auto
        have sg: "[c] = ''+'' \<or> [c] = ''-''" using True by auto
        have "tok = ws @ [c] @ takeWhile isdigit r @ dropWhile isdigit r"
          using tok body by simp
        then show ?thesis
          using ws ne sg tw[of r] dw[of r] by blast
      next
        case False
        then have "hd body = CHR ''-'' \<or> hd body = CHR ''+'' \<longrightarrow>
            tl body = [] \<or> \<not> isdigit (hd (tl body))"
          using body by auto
        moreover have "body \<noteq> []" "\<not> isspace (hd body)" "\<not> isdigit (hd body)"
          using body c nd by simp_all
        ultimately show ?thesis using tok ws by blast
      qed
    qed
  qed
qed


lemma int_parse_failure:
  assumes "extract_int tok v = (True, v')"
  shows "OptionBase_parse \<lparr>is_set = s, obj = KeywordOption_int ids hlp v\<rparr> [ident, tok]
       = Inl (ConversionError, \<lparr>is_set = s, obj = KeywordOption_int ids hlp v'\<rparr>)"
    and "OptionBase_parse \<lparr>is_set = s, obj = PositionalOption_int name hlp req v\<rparr> [tok]
       = Inl (ConversionError, \<lparr>is_set = s, obj = PositionalOption_int name hlp req v'\<rparr>)"
  using assms by (simp_all add: OptionBase_parse_def ConversionError_def)




section \<open>Matching\<close>

lemma matches_identifiers_iff: "matches_identifiers ids tok \<longleftrightarrow> tok \<in> set ids"
  by (induction ids) auto

lemma keyword_matches_iff:
  "get_type (obj opt) = KEYWORD \<Longrightarrow> matches opt tok \<longleftrightarrow> tok \<in> set (get_identifiers (obj opt))"
  by (cases "obj opt") (simp_all add: matches_def matches_identifiers_iff)

lemma positional_matches_iff:
  "get_type (obj opt) = POSITIONAL \<Longrightarrow> matches opt tok \<longleftrightarrow> \<not> is_set opt"
  by (cases "obj opt") (simp_all add: matches_def)

lemma split_options_loop_filter:
  "split_options_loop h opts so =
     \<lparr>positional = positional so @ filter (\<lambda>p. get_type (obj (h p)) = POSITIONAL) opts,
      keyword = keyword so @ filter (\<lambda>p. get_type (obj (h p)) = KEYWORD) opts\<rparr>"
proof (induction opts arbitrary: so)
  case Nil
  then show ?case by simp
next
  case (Cons p ps)
  show ?case
    by (cases "get_type (obj (h p))") (simp_all add: Cons.IH)
qed

lemma split_options_new_filter:
  "positional (split_options_new h opts) = filter (\<lambda>p. get_type (obj (h p)) = POSITIONAL) opts"
  "keyword (split_options_new h opts) = filter (\<lambda>p. get_type (obj (h p)) = KEYWORD) opts"
  by (simp_all add: split_options_new_def split_options_loop_filter)

lemma first_match_find: "first_match h arg xs = List.find (\<lambda>p. matches (h p) arg) xs"
  by (induction xs) auto

lemma find_filter: "List.find P (filter Q xs) = List.find (\<lambda>x. Q x \<and> P x) xs"
  by (induction xs) auto

lemma match_option_find:
  "match_option arg opts h =
     (case List.find (\<lambda>p. get_type (obj (h p)) = KEYWORD \<and> matches (h p) arg) opts of
        Some p \<Rightarrow> Some p
      | None \<Rightarrow> List.find (\<lambda>p. get_type (obj (h p)) = POSITIONAL \<and> matches (h p) arg) opts)"
  by (simp add: match_option_def split_options_new_filter first_match_find find_filter
      split: option.split)

text \<open>
  Claim C2. \<^verbatim>\<open>match_option\<close> returns the first keyword descriptor of the registry, in
  registration order, whose \<^verbatim>\<open>matches\<close> accepts the token; when there is none, the first
  positional descriptor of the registry that is not yet set; and \<^verbatim>\<open>nullptr\<close> when
  there is none either. With a keyword descriptor that has the identifier \<^verbatim>\<open>"-x"\<close> and a
  positional descriptor, registered in either order, the token \<^verbatim>\<open>"-x"\<close> is matched to
  the keyword descriptor.
\<close>

theorem match_option_precedence:
  "match_option arg opts h =
     (case List.find (\<lambda>p. get_type (obj (h p)) = KEYWORD \<and> matches (h p) arg) opts of
        Some p \<Rightarrow> Some p
      | None \<Rightarrow> List.find (\<lambda>p. get_type (obj (h p)) = POSITIONAL \<and> \<not> is_set (h p)) opts) \<and>
   (get_type (obj (h k)) = KEYWORD \<and> ''-x'' \<in> set (get_identifiers (obj (h k))) \<and>
    get_type (obj (h p)) = POSITIONAL \<longrightarrow>
      match_option ''-x'' [k, p] h = Some k \<and> match_option ''-x'' [p, k] h = Some k)"
proof (intro conjI impI)
  have "(\<lambda>p. get_type (obj (h p)) = POSITIONAL \<and> matches (h p) arg)
      = (\<lambda>p. get_type (obj (h p)) = POSITIONAL \<and> \<not> is_set (h p))"
    using positional_matches_iff by blast
  then show "match_option arg opts h =
     (case List.find (\<lambda>p. get_type (obj (h p)) = KEYWORD \<and> matches (h p) arg) opts of
        Some p \<Rightarrow> Some p
      | None \<Rightarrow> List.find (\<lambda>p. get_type (obj (h p)) = POSITIONAL \<and> \<not> is_set (h p)) opts)"
    by (simp add: match_option_find split: option.split)
next
  assume a: "get_type (obj (h k)) = KEYWORD \<and> ''-x'' \<in> set (get_identifiers (obj (h k))) \<and>
    get_type (obj (h p)) = POSITIONAL"
  then have m: "matches (h k) ''-x''"
    using keyword_matches_iff by blast
  show "match_option ''-x'' [k, p] h = Some k"
    using a m by (simp add: match_option_find)
  show "match_option ''-x'' [p, k] h = Some k"
    using a m by (simp add: match_option_find)
qed


theorem match_option_precedence_witness:
  "match_option ''-x''
      [1, 0]
      (heap_of [KeywordOption_bool_new [''-x''] ''a flag'' False,
                PositionalOption_string_new ''file'' ''input'' True []]) = Some 0 \<and>
   match_option ''input.txt''
      [1, 0]
      (heap_of [KeywordOption_bool_new [''-x''] ''a flag'' False,
                PositionalOption_string_new ''file'' ''input'' True []]) = Some 1"
  using match_option_precedence [where k = 0 and p = 1 and arg = "''input.txt''" and opts = "[1, 0]"
      and h = "heap_of [KeywordOption_bool_new [''-x''] ''a flag'' False,
                PositionalOption_string_new ''file'' ''input'' True []]"]
  by (simp add: heap_of_def KeywordOption_bool_new_def PositionalOption_string_new_def matches_def)

section \<open>Facts about the option objects and the consumer\<close>





lemma collect_take:
  "0 \<le> i \<Longrightarrow> i \<le> e \<Longrightarrow> e \<le> int (length argv) \<Longrightarrow>
     collect i e argv acc = Some (acc @ take (nat (e - i)) (drop (nat i) argv), e)"
proof (induction i e argv acc rule: collect.induct)
  case (1 i e argv acc)
  show ?case
  proof (cases "i < e")
    case False
    with "1.prems" have "i = e" by simp
    then show ?thesis by (subst collect.simps) simp
  next
    case True
    with "1.prems" have at: "argv_at argv i = Some (argv ! nat i)"
      by (simp add: argv_at_def)
    have lt: "nat i < length argv" using True "1.prems" by linarith
    have step: "collect (i + 1) e argv (acc @ [argv ! nat i])
        = Some ((acc @ [argv ! nat i]) @ take (nat (e - (i + 1))) (drop (nat (i + 1)) argv), e)"
      using "1.IH"[OF True at] True "1.prems" by simp
    have n1: "nat (e - i) = Suc (nat (e - (i + 1)))" using True by linarith
    have n2: "nat (i + 1) = Suc (nat i)" using "1.prems"(1) by linarith
    have "take (nat (e - i)) (drop (nat i) argv)
        = argv ! nat i # take (nat (e - (i + 1))) (drop (nat (i + 1)) argv)"
      unfolding n1 n2 using lt by (simp add: Cons_nth_drop_Suc[symmetric])
    then show ?thesis
      using True at step by (subst collect.simps) simp
  qed
qed

text \<open>
  The consumer on a well-formed call: \<^verbatim>\<open>argc\<close> is the length of \<^verbatim>\<open>argv\<close> and
  \<^verbatim>\<open>i\<close> an index into it. The slice handed to the option is the matched token and the
  \<open>pc\<close> tokens after it.
\<close>

lemma handle_match_invalid:
  "get_param_count (obj (h opt)) < - 1 \<Longrightarrow>
     handle_match i opt argc argv h = Inl (InvalidArityError, h)"
  by (simp add: handle_match_def InvalidArityError_def)

lemma handle_match_insufficient:
  assumes "- 1 \<le> get_param_count (obj (h opt))"
    and "pc = (if get_param_count (obj (h opt)) = - 1 then argc - i - 1
               else get_param_count (obj (h opt)))"
    and "argc \<le> i + pc" and "i + pc \<le> INT_MAX"
  shows "handle_match i opt argc argv h = Inl (InsufficientArgumentsError, h)"
  using assms by (simp add: handle_match_def InsufficientArgumentsError_def Let_def)

lemma handle_match_consume:
  assumes "0 \<le> i" and "argc = int (length argv)" and "argc \<le> INT_MAX"
    and "i < argc"
    and "- 1 \<le> get_param_count (obj (h opt))"
    and "pc = (if get_param_count (obj (h opt)) = - 1 then argc - i - 1
               else get_param_count (obj (h opt)))"
    and "i + pc < argc"
  shows "handle_match i opt argc argv h =
     (case OptionBase_parse (h opt) (take (nat pc + 1) (drop (nat i) argv)) of
        Inl (e, o') \<Rightarrow> Inl (e, h(opt := o'))
      | Inr o' \<Rightarrow> Inr (i + pc, h(opt := o')))"
proof -
  have pc0: "0 \<le> pc" using assms(4,5,6) by (auto split: if_splits)
  have c: "collect i (i + pc + 1) argv []
      = Some ([] @ take (nat (i + pc + 1 - i)) (drop (nat i) argv), i + pc + 1)"
    using assms(1,2,7) pc0 by (intro collect_take) auto
  have n: "nat (i + pc + 1 - i) = nat pc + 1" using pc0 by linarith
  have g: "\<not> get_param_count (obj (h opt)) < - 1" "\<not> INT_MAX < i + pc" "\<not> argc \<le> i + pc"
    using assms(3,5,7) by auto
  show ?thesis
    unfolding handle_match_def Let_def assms(6)[symmetric]
    using g c n by (simp split: sum.splits prod.splits)
qed

section \<open>Too few tokens\<close>

lemma parse_loop_last_insufficient:
  assumes "argv \<noteq> []" and "argc = int (length argv)" and "argc \<le> INT_MAX"
    and "match_option (last argv) opts h = Some opt"
    and "get_param_count (obj (h opt)) = 1"
  shows "parse_loop (argc - 1) argc argv opts u h = Inl (out_of_range ''Not enough arguments.'', u, h)"
proof -
  have at: "argv_at argv (argc - 1) = Some (last argv)"
    using assms(1,2) by (simp add: argv_at_def last_conv_nth nat_diff_distrib')
  have hm: "handle_match (argc - 1) opt argc argv h = Inl (InsufficientArgumentsError, h)"
    using assms(3,5) by (intro handle_match_insufficient[where pc = 1]) auto
  show ?thesis
    using at assms(4) hm
    by (subst parse_loop.simps) (simp add: InsufficientArgumentsError_def)
qed

text \<open>
  Claim C3 says that the error for too few tokens names the offending identifier. The
  exception of \<^verbatim>\<open>handle_match\<close> carries a fixed message: for \<^verbatim>\<open>--count\<close> as the last
  token it is \<^verbatim>\<open>"Not enough arguments."\<close>, in which \<^verbatim>\<open>--count\<close> does not occur.
\<close>

theorem insufficient_arguments_counterexample:
  "parse 2 [''prog'', ''--count''] [0] 1 (heap_of [KeywordOption_int_new [''--count''] ''how many'' 0])
     = Inl (out_of_range ''Not enough arguments.'',
            heap_of [KeywordOption_int_new [''--count''] ''how many'' 0]) \<and>
   \<not> names_identifier (out_of_range ''Not enough arguments.'') ''--count''"
proof
  let ?h = "heap_of [KeywordOption_int_new [''--count''] ''how many'' 0]"
  have m: "match_option (last [''prog'', ''--count'']) [0] ?h = Some 0"
    by (simp add: match_option_find heap_of_def KeywordOption_int_new_def matches_def)
  have "parse_loop (2 - 1) 2 [''prog'', ''--count''] [0] [] ?h
      = Inl (out_of_range ''Not enough arguments.'', [], ?h)"
    using m by (intro parse_loop_last_insufficient[where opt = 0])
      (simp_all add: INT_MAX_def heap_of_def KeywordOption_int_new_def)
  then show "parse 2 [''prog'', ''--count''] [0] 1 ?h = Inl (out_of_range ''Not enough arguments.'', ?h)"
    by (simp add: parse_def)
  show "\<not> names_identifier (out_of_range ''Not enough arguments.'') ''--count''"
    by (simp add: names_identifier_def sublist_Cons_right)
qed

text \<open>
  Claim C3, amended. When a matched descriptor's resolved arity \<open>pc\<close> reaches past the
  input (\<^verbatim>\<open>i + pc >= argc\<close>), \<^verbatim>\<open>handle_match\<close> throws \<^verbatim>\<open>std::out_of_range\<close> with the
  fixed message \<^verbatim>\<open>"Not enough arguments."\<close> and leaves every descriptor as it was; the
  message does not depend on the identifier. In particular, when the last input token
  is matched to a descriptor of arity 1, the scan that reaches it, and the parse that starts
  at it, end with this exception.
\<close>

theorem insufficient_arguments:
  "((- 1 \<le> get_param_count (obj (h opt)) \<and>
     pc = (if get_param_count (obj (h opt)) = - 1 then argc - i - 1
           else get_param_count (obj (h opt))) \<and>
     argc \<le> i + pc \<and> i + pc \<le> INT_MAX) \<longrightarrow>
      handle_match i opt argc argv h = Inl (InsufficientArgumentsError, h)) \<and>
   ((argv \<noteq> [] \<and> argc = int (length argv) \<and> argc \<le> INT_MAX \<and>
     match_option (last argv) opts h = Some opt \<and> get_param_count (obj (h opt)) = 1) \<longrightarrow>
      parse_loop (argc - 1) argc argv opts u h = Inl (InsufficientArgumentsError, u, h) \<and>
      parse argc argv opts (argc - 1) h = Inl (InsufficientArgumentsError, h)) \<and>
   InsufficientArgumentsError = out_of_range ''Not enough arguments.''"
proof (intro conjI impI)
  assume "- 1 \<le> get_param_count (obj (h opt)) \<and>
     pc = (if get_param_count (obj (h opt)) = - 1 then argc - i - 1
           else get_param_count (obj (h opt))) \<and>
     argc \<le> i + pc \<and> i + pc \<le> INT_MAX"
  then show "handle_match i opt argc argv h = Inl (InsufficientArgumentsError, h)"
    by (intro handle_match_insufficient[where pc = pc]) blast+
next
  assume a: "argv \<noteq> [] \<and> argc = int (length argv) \<and> argc \<le> INT_MAX \<and>
     match_option (last argv) opts h = Some opt \<and> get_param_count (obj (h opt)) = 1"
  have l: "\<And>u. parse_loop (argc - 1) argc argv opts u h = Inl (InsufficientArgumentsError, u, h)"
    unfolding InsufficientArgumentsError_def
    using a by (intro parse_loop_last_insufficient) blast+
  show "parse_loop (argc - 1) argc argv opts u h = Inl (InsufficientArgumentsError, u, h)"
    by (rule l)
  show "parse argc argv opts (argc - 1) h = Inl (InsufficientArgumentsError, h)"
    by (simp add: parse_def l)
next
  show "InsufficientArgumentsError = out_of_range ''Not enough arguments.''"
    by (simp add: InsufficientArgumentsError_def)
qed

theorem insufficient_arguments_witness:
  "handle_match 2 0 3 [''prog'', ''-v'', ''--count'']
      (heap_of [KeywordOption_int_new [''--count''] ''how many'' 0])
     = Inl (InsufficientArgumentsError, heap_of [KeywordOption_int_new [''--count''] ''how many'' 0]) \<and>
   parse 3 [''prog'', ''-v'', ''--count''] [0] 2
      (heap_of [KeywordOption_int_new [''--count''] ''how many'' 0])
     = Inl (InsufficientArgumentsError, heap_of [KeywordOption_int_new [''--count''] ''how many'' 0])"
  using insufficient_arguments [where h = "heap_of [KeywordOption_int_new [''--count''] ''how many'' 0]"
      and opt = 0 and pc = 1 and argc = 3 and i = 2 and argv = "[''prog'', ''-v'', ''--count'']"
      and opts = "[0]"]
  by (simp add: heap_of_def KeywordOption_int_new_def INT_MAX_def match_option_find matches_def)

section \<open>The flag \<^verbatim>\<open>is_set_\<close>\<close>








section \<open>Boolean flags\<close>

lemma flag_parse:
  "OptionBase_parse \<lparr>is_set = s, obj = KeywordOption_bool ids hlp v\<rparr> strings
     = Inr \<lparr>is_set = True, obj = KeywordOption_bool ids hlp True\<rparr>"
  by (simp add: OptionBase_parse_def)

lemma flag_handle_match:
  assumes "obj (h f) = KeywordOption_bool ids hlp v"
    and "0 \<le> i" and "i < argc" and "argc = int (length argv)" and "argc \<le> INT_MAX"
  shows "handle_match i f argc argv h
     = Inr (i, h(f := \<lparr>is_set = True, obj = KeywordOption_bool ids hlp True\<rparr>))"
proof -
  have hf: "h f = \<lparr>is_set = is_set (h f), obj = KeywordOption_bool ids hlp v\<rparr>"
    using assms(1) by (cases "h f") simp
  have "handle_match i f argc argv h =
     (case OptionBase_parse (h f) (take (nat 0 + 1) (drop (nat i) argv)) of
        Inl (e, o') \<Rightarrow> Inl (e, h(f := o'))
      | Inr o' \<Rightarrow> Inr (i + 0, h(f := o')))"
    using assms by (intro handle_match_consume) simp_all
  also have "OptionBase_parse (h f) (take (nat 0 + 1) (drop (nat i) argv))
     = Inr \<lparr>is_set = True, obj = KeywordOption_bool ids hlp True\<rparr>"
    by (subst hf) (rule flag_parse)
  finally show ?thesis by simp
qed

lemma flag_match_option:
  assumes "obj (h f) = KeywordOption_bool ids hlp v"
  shows "match_option t [f] h = (if t \<in> set ids then Some f else None)"
  using assms by (simp add: match_option_find matches_def matches_identifiers_iff)

lemma flag_only_parse_loop:
  assumes "obj (h f) = KeywordOption_bool ids hlp v"
    and "0 \<le> i" and "argc = int (length argv)" and "argc \<le> INT_MAX"
  shows "parse_loop i argc argv [f] u h =
     Inr (u @ filter (\<lambda>t. t \<notin> set ids) (drop (nat i) argv),
          if \<exists>t \<in> set (drop (nat i) argv). t \<in> set ids
          then h(f := \<lparr>is_set = True, obj = KeywordOption_bool ids hlp True\<rparr>) else h)"
  using assms
proof (induction "nat (argc - i)" arbitrary: i u h v)
  case 0
  then have "\<not> i < argc" and "drop (nat i) argv = []" by auto
  then show ?case by (subst parse_loop.simps) simp
next
  case (Suc n)
  let ?F = "\<lparr>is_set = True, obj = KeywordOption_bool ids hlp True\<rparr>"
  let ?t = "argv ! nat i"
  have lt: "i < argc" using Suc.hyps(2) by linarith
  have at: "argv_at argv i = Some ?t"
    using lt Suc.prems by (simp add: argv_at_def)
  have n1: "nat (i + 1) = Suc (nat i)" using Suc.prems(2) by linarith
  have dr: "drop (nat i) argv = ?t # drop (nat (i + 1)) argv"
    unfolding n1 using lt Suc.prems by (intro Cons_nth_drop_Suc[symmetric]) linarith
  have n: "n = nat (argc - (i + 1))" using Suc.hyps(2) by linarith
  show ?case
  proof (cases "?t \<in> set ids")
    case True
    have m: "match_option ?t [f] h = Some f"
      using flag_match_option[where h = h and f = f, OF Suc.prems(1)] True by simp
    have hm: "handle_match i f argc argv h = Inr (i, h(f := ?F))"
      using Suc.prems lt by (intro flag_handle_match) simp_all
    have "parse_loop (i + 1) argc argv [f] u (h(f := ?F)) =
       Inr (u @ filter (\<lambda>t. t \<notin> set ids) (drop (nat (i + 1)) argv),
            if \<exists>t \<in> set (drop (nat (i + 1)) argv). t \<in> set ids
            then (h(f := ?F))(f := ?F) else h(f := ?F))"
      using Suc.prems by (intro Suc.hyps(1)[OF n, where v = True]) simp_all
    then show ?thesis
      using lt at m hm True by (subst parse_loop.simps) (simp add: dr)
  next
    case False
    have m: "match_option ?t [f] h = None"
      using flag_match_option[where h = h and f = f, OF Suc.prems(1)] False by simp
    have "parse_loop (i + 1) argc argv [f] (u @ [?t]) h =
       Inr ((u @ [?t]) @ filter (\<lambda>t. t \<notin> set ids) (drop (nat (i + 1)) argv),
            if \<exists>t \<in> set (drop (nat (i + 1)) argv). t \<in> set ids
            then h(f := ?F) else h)"
      using Suc.prems by (intro Suc.hyps(1)[OF n, where v = v]) simp_all
    then show ?thesis
      using lt at m False by (subst parse_loop.simps) (simp add: dr)
  qed
qed

text \<open>
  Claim C6. A \<^verbatim>\<open>KeywordOption<bool>\<close> asks for no parameter; its \<^verbatim>\<open>parse\<close> never fails
  and leaves the value true and \<^verbatim>\<open>is_set\<close> true, whatever they were, so a second
  trigger writes the same state again. \<^verbatim>\<open>handle_match\<close> on a flag consumes the matched
  token only. With the flag as the only descriptor, every parse returns: the tokens that
  are not identifiers of the flag are unrecognised, and as soon as one identifier occurs
  after the skip offset, once or many times, the flag is true and set.
\<close>

theorem flag_always_true:
  "get_param_count (KeywordOption_bool ids hlp v) = 0 \<and>
   OptionBase_parse \<lparr>is_set = s, obj = KeywordOption_bool ids hlp v\<rparr> strings
     = Inr \<lparr>is_set = True, obj = KeywordOption_bool ids hlp True\<rparr> \<and>
   OptionBase_parse \<lparr>is_set = True, obj = KeywordOption_bool ids hlp True\<rparr> strings'
     = Inr \<lparr>is_set = True, obj = KeywordOption_bool ids hlp True\<rparr> \<and>
   ((obj (h f) = KeywordOption_bool ids hlp v \<and> 0 \<le> i \<and> i < argc \<and>
     argc = int (length argv) \<and> argc \<le> INT_MAX) \<longrightarrow>
      handle_match i f argc argv h
        = Inr (i, h(f := \<lparr>is_set = True, obj = KeywordOption_bool ids hlp True\<rparr>))) \<and>
   ((obj (h f) = KeywordOption_bool ids hlp v \<and> 0 \<le> skip_first_n \<and>
     argc = int (length argv) \<and> argc \<le> INT_MAX) \<longrightarrow>
      parse argc argv [f] skip_first_n h
        = Inr (filter (\<lambda>t. t \<notin> set ids) (drop (nat skip_first_n) argv),
               if \<exists>t \<in> set (drop (nat skip_first_n) argv). t \<in> set ids
               then h(f := \<lparr>is_set = True, obj = KeywordOption_bool ids hlp True\<rparr>) else h))"
proof (intro conjI impI)
  show "get_param_count (KeywordOption_bool ids hlp v) = 0" by simp
  show "OptionBase_parse \<lparr>is_set = s, obj = KeywordOption_bool ids hlp v\<rparr> strings
     = Inr \<lparr>is_set = True, obj = KeywordOption_bool ids hlp True\<rparr>"
    by (rule flag_parse)
  show "OptionBase_parse \<lparr>is_set = True, obj = KeywordOption_bool ids hlp True\<rparr> strings'
     = Inr \<lparr>is_set = True, obj = KeywordOption_bool ids hlp True\<rparr>"
    by (rule flag_parse)
next
  assume "obj (h f) = KeywordOption_bool ids hlp v \<and> 0 \<le> i \<and> i < argc \<and>
     argc = int (length argv) \<and> argc \<le> INT_MAX"
  then show "handle_match i f argc argv h
        = Inr (i, h(f := \<lparr>is_set = True, obj = KeywordOption_bool ids hlp True\<rparr>))"
    by (intro flag_handle_match[where v = v]) blast+
next
  assume a: "obj (h f) = KeywordOption_bool ids hlp v \<and> 0 \<le> skip_first_n \<and>
     argc = int (length argv) \<and> argc \<le> INT_MAX"
  have "parse_loop skip_first_n argc argv [f] [] h =
     Inr ([] @ filter (\<lambda>t. t \<notin> set ids) (drop (nat skip_first_n) argv),
          if \<exists>t \<in> set (drop (nat skip_first_n) argv). t \<in> set ids
          then h(f := \<lparr>is_set = True, obj = KeywordOption_bool ids hlp True\<rparr>) else h)"
    using a by (intro flag_only_parse_loop[where v = v]) blast+
  then show "parse argc argv [f] skip_first_n h
        = Inr (filter (\<lambda>t. t \<notin> set ids) (drop (nat skip_first_n) argv),
               if \<exists>t \<in> set (drop (nat skip_first_n) argv). t \<in> set ids
               then h(f := \<lparr>is_set = True, obj = KeywordOption_bool ids hlp True\<rparr>) else h)"
    by (simp add: parse_def)
qed

theorem flag_always_true_witness:
  "handle_match 1 0 4 [''prog'', ''-v'', ''x'', ''--verbose'']
      (heap_of [KeywordOption_bool_new [''-v'', ''--verbose''] ''verbose'' False])
     = Inr (1, (heap_of [KeywordOption_bool_new [''-v'', ''--verbose''] ''verbose'' False])
                 (0 := \<lparr>is_set = True, obj = KeywordOption_bool [''-v'', ''--verbose''] ''verbose'' True\<rparr>)) \<and>
   parse 4 [''prog'', ''-v'', ''x'', ''--verbose''] [0] 1
      (heap_of [KeywordOption_bool_new [''-v'', ''--verbose''] ''verbose'' False])
     = Inr ([''x''], (heap_of [KeywordOption_bool_new [''-v'', ''--verbose''] ''verbose'' False])
                 (0 := \<lparr>is_set = True, obj = KeywordOption_bool [''-v'', ''--verbose''] ''verbose'' True\<rparr>))"
  using flag_always_true [where h = "heap_of [KeywordOption_bool_new [''-v'', ''--verbose''] ''verbose'' False]"
      and f = 0 and ids = "[''-v'', ''--verbose'']" and hlp = "''verbose''" and v = False
      and i = 1 and argc = 4 and argv = "[''prog'', ''-v'', ''x'', ''--verbose'']"
      and skip_first_n = 1]
  by (simp add: heap_of_def KeywordOption_bool_new_def INT_MAX_def)

section \<open>The arity "all remaining arguments"\<close>

lemma variadic_parse:
  "OptionBase_parse \<lparr>is_set = s, obj = VariadicOption ids hlp a v\<rparr> strings
     = Inr \<lparr>is_set = True, obj = VariadicOption ids hlp a (tl strings)\<rparr>"
  by (simp add: OptionBase_parse_def)

lemma rest_handle_match_general:
  assumes "get_param_count (obj (h opt)) = - 1"
    and "0 \<le> i" and "i < argc" and "argc = int (length argv)" and "argc \<le> INT_MAX"
  shows "handle_match i opt argc argv h =
     (case OptionBase_parse (h opt) (drop (nat i) argv) of
        Inl (e, o') \<Rightarrow> Inl (e, h(opt := o'))
      | Inr o' \<Rightarrow> Inr (argc - 1, h(opt := o')))"
proof -
  have len: "nat (argc - i - 1) + 1 = length (drop (nat i) argv)"
    using assms(2,3,4) by simp
  have "handle_match i opt argc argv h =
     (case OptionBase_parse (h opt) (take (nat (argc - i - 1) + 1) (drop (nat i) argv)) of
        Inl (e, o') \<Rightarrow> Inl (e, h(opt := o'))
      | Inr o' \<Rightarrow> Inr (i + (argc - i - 1), h(opt := o')))"
    using assms by (intro handle_match_consume) simp_all
  also have "take (nat (argc - i - 1) + 1) (drop (nat i) argv) = drop (nat i) argv"
    unfolding len by simp
  also have "i + (argc - i - 1) = argc - 1" by simp
  finally show ?thesis .
qed

lemma rest_handle_match:
  assumes "obj (h opt) = VariadicOption ids hlp (- 1) v"
    and "0 \<le> i" and "i < argc" and "argc = int (length argv)" and "argc \<le> INT_MAX"
  shows "handle_match i opt argc argv h
     = Inr (argc - 1,
            h(opt := \<lparr>is_set = True, obj = VariadicOption ids hlp (- 1) (drop (nat i + 1) argv)\<rparr>))"
proof -
  have ho: "h opt = \<lparr>is_set = is_set (h opt), obj = VariadicOption ids hlp (- 1) v\<rparr>"
    using assms(1) by (cases "h opt") simp
  have len: "nat (argc - i - 1) + 1 = length (drop (nat i) argv)"
    using assms(2,3,4) by simp
  have "handle_match i opt argc argv h =
     (case OptionBase_parse (h opt) (take (nat (argc - i - 1) + 1) (drop (nat i) argv)) of
        Inl (e, o') \<Rightarrow> Inl (e, h(opt := o'))
      | Inr o' \<Rightarrow> Inr (i + (argc - i - 1), h(opt := o')))"
    using assms by (intro handle_match_consume) simp_all
  also have "take (nat (argc - i - 1) + 1) (drop (nat i) argv) = drop (nat i) argv"
    unfolding len by simp
  also have "OptionBase_parse (h opt) (drop (nat i) argv)
     = Inr \<lparr>is_set = True, obj = VariadicOption ids hlp (- 1) (tl (drop (nat i) argv))\<rparr>"
    by (subst ho) (rule variadic_parse)
  finally show ?thesis by (simp add: drop_Suc tl_drop)
qed

lemma rest_parse_loop:
  assumes "obj (h opt) = VariadicOption ids hlp (- 1) v"
    and "0 \<le> i" and "i < argc" and "argc = int (length argv)" and "argc \<le> INT_MAX"
    and "match_option (argv ! nat i) opts h = Some opt"
  shows "parse_loop i argc argv opts u h
     = Inr (u, h(opt := \<lparr>is_set = True, obj = VariadicOption ids hlp (- 1) (drop (nat i + 1) argv)\<rparr>))"
proof -
  have at: "argv_at argv i = Some (argv ! nat i)"
    using assms(2,3,4) by (simp add: argv_at_def)
  have stop: "\<And>h'. parse_loop (argc - 1 + 1) argc argv opts u h' = Inr (u, h')"
    by (subst parse_loop.simps) simp
  show ?thesis
    using assms(3,6) at rest_handle_match[where h = h and opt = opt, OF assms(1-5)] stop
    by (subst parse_loop.simps) simp
qed

text \<open>
  Claim C7. For a descriptor that declares the arity \<^verbatim>\<open>-1\<close>, matched at index \<^verbatim>\<open>i\<close>
  of \<^verbatim>\<open>argc\<close> tokens, \<^verbatim>\<open>handle_match\<close> does not fail: it hands the matched token and all
  the \<^verbatim>\<open>argc - i - 1\<close> tokens after it to the descriptor and leaves \<^verbatim>\<open>i\<close> on the last
  token, so the scan ends there and no later token is examined or reported. Matched at the
  last position, the descriptor receives no parameter, and the parse succeeds just the same.
\<close>

theorem rest_arity_consumes_all:
  "((get_param_count (obj (h opt)) = - 1 \<and> 0 \<le> i \<and> i < argc \<and>
     argc = int (length argv) \<and> argc \<le> INT_MAX) \<longrightarrow>
      handle_match i opt argc argv h =
        (case OptionBase_parse (h opt) (drop (nat i) argv) of
           Inl (e, o') \<Rightarrow> Inl (e, h(opt := o'))
         | Inr o' \<Rightarrow> Inr (argc - 1, h(opt := o'))) \<and>
      int (length (drop (nat i) argv)) = (argc - i - 1) + 1) \<and>
   ((obj (h opt) = VariadicOption ids hlp (- 1) v \<and> 0 \<le> i \<and> i < argc \<and>
     argc = int (length argv) \<and> argc \<le> INT_MAX) \<longrightarrow>
      handle_match i opt argc argv h
        = Inr (argc - 1,
               h(opt := \<lparr>is_set = True, obj = VariadicOption ids hlp (- 1) (drop (nat i + 1) argv)\<rparr>)) \<and>
      (match_option (argv ! nat i) opts h = Some opt \<longrightarrow>
         parse_loop i argc argv opts u h
           = Inr (u, h(opt := \<lparr>is_set = True,
                               obj = VariadicOption ids hlp (- 1) (drop (nat i + 1) argv)\<rparr>))) \<and>
      (i = argc - 1 \<longrightarrow>
         handle_match i opt argc argv h
           = Inr (i, h(opt := \<lparr>is_set = True, obj = VariadicOption ids hlp (- 1) []\<rparr>))))"
proof (intro conjI impI)
  assume a: "get_param_count (obj (h opt)) = - 1 \<and> 0 \<le> i \<and> i < argc \<and>
     argc = int (length argv) \<and> argc \<le> INT_MAX"
  then show "handle_match i opt argc argv h =
        (case OptionBase_parse (h opt) (drop (nat i) argv) of
           Inl (e, o') \<Rightarrow> Inl (e, h(opt := o'))
         | Inr o' \<Rightarrow> Inr (argc - 1, h(opt := o')))"
    by (intro rest_handle_match_general) blast+
  show "int (length (drop (nat i) argv)) = (argc - i - 1) + 1"
    using a by auto
next
  assume a: "obj (h opt) = VariadicOption ids hlp (- 1) v \<and> 0 \<le> i \<and> i < argc \<and>
    argc = int (length argv) \<and> argc \<le> INT_MAX"
  then show hm: "handle_match i opt argc argv h
       = Inr (argc - 1,
              h(opt := \<lparr>is_set = True, obj = VariadicOption ids hlp (- 1) (drop (nat i + 1) argv)\<rparr>))"
    by (intro rest_handle_match[where v = v]) blast+
  show "parse_loop i argc argv opts u h
          = Inr (u, h(opt := \<lparr>is_set = True,
                              obj = VariadicOption ids hlp (- 1) (drop (nat i + 1) argv)\<rparr>))"
    if "match_option (argv ! nat i) opts h = Some opt"
    using a that by (intro rest_parse_loop[where v = v]) blast+
  show "handle_match i opt argc argv h
          = Inr (i, h(opt := \<lparr>is_set = True, obj = VariadicOption ids hlp (- 1) []\<rparr>))"
    if "i = argc - 1"
    using hm a that by simp
qed

theorem rest_arity_consumes_all_witness:
  "parse 5 [''prog'', ''--rest'', ''r1'', ''r2'', ''r3''] [0] 1
       (heap_of [VariadicOption_new [''--rest''] ''everything else'' (- 1)])
     = Inr ([], (heap_of [VariadicOption_new [''--rest''] ''everything else'' (- 1)])
                 (0 := \<lparr>is_set = True,
                        obj = VariadicOption [''--rest''] ''everything else'' (- 1) [''r1'', ''r2'', ''r3'']\<rparr>)) \<and>
   handle_match 1 0 2 [''prog'', ''--rest'']
       (heap_of [VariadicOption_new [''--rest''] ''everything else'' (- 1)])
     = Inr (1, (heap_of [VariadicOption_new [''--rest''] ''everything else'' (- 1)])
                 (0 := \<lparr>is_set = True,
                        obj = VariadicOption [''--rest''] ''everything else'' (- 1) []\<rparr>))"
  using rest_arity_consumes_all [where h = "heap_of [VariadicOption_new [''--rest''] ''everything else'' (- 1)]"
      and opt = 0 and ids = "[''--rest'']" and hlp = "''everything else''" and v = "[]"
      and i = 1 and argc = 5 and argv = "[''prog'', ''--rest'', ''r1'', ''r2'', ''r3'']"
      and opts = "[0]" and u = "[]", THEN conjunct2]
    rest_arity_consumes_all [where h = "heap_of [VariadicOption_new [''--rest''] ''everything else'' (- 1)]"
      and opt = 0 and ids = "[''--rest'']" and hlp = "''everything else''" and v = "[]"
      and i = 1 and argc = 2 and argv = "[''prog'', ''--rest'']", THEN conjunct2]
  by (simp add: heap_of_def VariadicOption_new_def INT_MAX_def match_option_find matches_def parse_def)

section \<open>Positional options\<close>

lemma positional_param_count: "get_type d = POSITIONAL \<Longrightarrow> get_param_count d = 0"
  by (cases d) simp_all

lemma positional_string_parse:
  "OptionBase_parse \<lparr>is_set = s, obj = PositionalOption_string name hlp req v\<rparr> [tok]
     = Inr \<lparr>is_set = True, obj = PositionalOption_string name hlp req tok\<rparr>"
  by (simp add: OptionBase_parse_def)

lemma positional_handle_match:
  assumes "get_type (obj (h p)) = POSITIONAL"
    and "0 \<le> i" and "i < argc" and "argc = int (length argv)" and "argc \<le> INT_MAX"
  shows "handle_match i p argc argv h =
     (case OptionBase_parse (h p) [argv ! nat i] of
        Inl (e, o') \<Rightarrow> Inl (e, h(p := o'))
      | Inr o' \<Rightarrow> Inr (i, h(p := o')))"
proof -
  have pc: "get_param_count (obj (h p)) = 0"
    using assms(1) by (rule positional_param_count)
  have lt: "nat i < length argv" using assms(2,3,4) by linarith
  have sl: "take (nat 0 + 1) (drop (nat i) argv) = [argv ! nat i]"
    using lt by (simp add: take_Suc_conv_app_nth)
  have "handle_match i p argc argv h =
     (case OptionBase_parse (h p) (take (nat 0 + 1) (drop (nat i) argv)) of
        Inl (e, o') \<Rightarrow> Inl (e, h(p := o'))
      | Inr o' \<Rightarrow> Inr (i + 0, h(p := o')))"
    using assms pc by (intro handle_match_consume) simp_all
  then show ?thesis unfolding sl by (simp split: sum.splits prod.splits)
qed

lemma positional_step:
  assumes "match_option (argv ! nat i) opts h = Some p" and "get_type (obj (h p)) = POSITIONAL"
    and "0 \<le> i" and "i < argc" and "argc = int (length argv)" and "argc \<le> INT_MAX"
  shows "parse_loop i argc argv opts u h =
     (case OptionBase_parse (h p) [argv ! nat i] of
        Inl (e, o') \<Rightarrow> Inl (e, u, h(p := o'))
      | Inr o' \<Rightarrow> parse_loop (i + 1) argc argv opts u (h(p := o')))"
proof -
  have at: "argv_at argv i = Some (argv ! nat i)"
    using assms(3,4,5) by (simp add: argv_at_def)
  show ?thesis
    using assms(1,4) at positional_handle_match[where h = h and p = p, OF assms(2-6)]
    by (subst parse_loop.simps) (simp split: sum.splits prod.splits)
qed

lemma two_positionals:
  assumes "p1 \<noteq> p2"
    and "h p1 = \<lparr>is_set = False, obj = PositionalOption_string n1 hlp1 r1 v1\<rparr>"
    and "h p2 = \<lparr>is_set = False, obj = PositionalOption_string n2 hlp2 r2 v2\<rparr>"
  shows "parse 2 [a, b] [p1, p2] 0 h
     = Inr ([], h(p1 := \<lparr>is_set = True, obj = PositionalOption_string n1 hlp1 r1 a\<rparr>,
                  p2 := \<lparr>is_set = True, obj = PositionalOption_string n2 hlp2 r2 b\<rparr>))"
proof -
  let ?A = "\<lparr>is_set = True, obj = PositionalOption_string n1 hlp1 r1 a\<rparr>"
  let ?B = "\<lparr>is_set = True, obj = PositionalOption_string n2 hlp2 r2 b\<rparr>"
  let ?h1 = "h(p1 := ?A)"
  have m1: "match_option ([a, b] ! nat 0) [p1, p2] h = Some p1"
    using assms by (simp add: match_option_find matches_def)
  have m2: "match_option ([a, b] ! nat 1) [p1, p2] ?h1 = Some p2"
    using assms by (simp add: match_option_find matches_def)
  have s1: "parse_loop 0 2 [a, b] [p1, p2] [] h = parse_loop (0 + 1) 2 [a, b] [p1, p2] [] ?h1"
    using m1 assms(2)
    by (subst positional_step[where p = p1]) (simp_all add: INT_MAX_def positional_string_parse)
  have s2: "parse_loop 1 2 [a, b] [p1, p2] [] ?h1 = parse_loop (1 + 1) 2 [a, b] [p1, p2] [] (?h1(p2 := ?B))"
    using m2 assms(1,3)
    by (subst positional_step[where p = p2]) (simp_all add: INT_MAX_def positional_string_parse)
  have s3: "parse_loop 2 2 [a, b] [p1, p2] [] (?h1(p2 := ?B)) = Inr ([], ?h1(p2 := ?B))"
    by (subst parse_loop.simps) simp
  show ?thesis
    using s1 s2 s3 by (simp add: parse_def)
qed

text \<open>
  Claim C8. A positional descriptor matches a token exactly when it is not yet set,
  whatever the token; it asks for no further token, and \<^verbatim>\<open>handle_match\<close> hands it the
  matched token alone. A string positional stores that token. Hence two distinct, unset
  string positionals \<open>p1\<close>, \<open>p2\<close> registered in this order and the input \<open>[a, b]\<close> (no
  keyword descriptor, nothing skipped) end with \<open>a\<close> in \<open>p1\<close>, \<open>b\<close> in \<open>p2\<close> and no
  unrecognised token.
\<close>

theorem positional_registration_order:
  "(get_type (obj opt) = POSITIONAL \<longrightarrow>
      (matches opt tok \<longleftrightarrow> \<not> is_set opt) \<and> get_param_count (obj opt) = 0) \<and>
   ((get_type (obj (h p)) = POSITIONAL \<and> 0 \<le> i \<and> i < argc \<and>
     argc = int (length argv) \<and> argc \<le> INT_MAX) \<longrightarrow>
      handle_match i p argc argv h =
        (case OptionBase_parse (h p) [argv ! nat i] of
           Inl (e, o') \<Rightarrow> Inl (e, h(p := o'))
         | Inr o' \<Rightarrow> Inr (i, h(p := o')))) \<and>
   OptionBase_parse \<lparr>is_set = s, obj = PositionalOption_string name hlp req v\<rparr> [tok]
     = Inr \<lparr>is_set = True, obj = PositionalOption_string name hlp req tok\<rparr> \<and>
   ((p1 \<noteq> p2 \<and>
     h p1 = \<lparr>is_set = False, obj = PositionalOption_string n1 hlp1 r1 v1\<rparr> \<and>
     h p2 = \<lparr>is_set = False, obj = PositionalOption_string n2 hlp2 r2 v2\<rparr>) \<longrightarrow>
      parse 2 [a, b] [p1, p2] 0 h
        = Inr ([], h(p1 := \<lparr>is_set = True, obj = PositionalOption_string n1 hlp1 r1 a\<rparr>,
                     p2 := \<lparr>is_set = True, obj = PositionalOption_string n2 hlp2 r2 b\<rparr>)))"
proof (intro conjI impI)
  show "matches opt tok \<longleftrightarrow> \<not> is_set opt" if "get_type (obj opt) = POSITIONAL"
    using that by (rule positional_matches_iff)
  show "get_param_count (obj opt) = 0" if "get_type (obj opt) = POSITIONAL"
    using that by (rule positional_param_count)
  show "OptionBase_parse \<lparr>is_set = s, obj = PositionalOption_string name hlp req v\<rparr> [tok]
     = Inr \<lparr>is_set = True, obj = PositionalOption_string name hlp req tok\<rparr>"
    by (rule positional_string_parse)
next
  assume "get_type (obj (h p)) = POSITIONAL \<and> 0 \<le> i \<and> i < argc \<and>
     argc = int (length argv) \<and> argc \<le> INT_MAX"
  then show "handle_match i p argc argv h =
        (case OptionBase_parse (h p) [argv ! nat i] of
           Inl (e, o') \<Rightarrow> Inl (e, h(p := o'))
         | Inr o' \<Rightarrow> Inr (i, h(p := o')))"
    by (intro positional_handle_match) blast+
next
  assume "p1 \<noteq> p2 \<and>
     h p1 = \<lparr>is_set = False, obj = PositionalOption_string n1 hlp1 r1 v1\<rparr> \<and>
     h p2 = \<lparr>is_set = False, obj = PositionalOption_string n2 hlp2 r2 v2\<rparr>"
  then show "parse 2 [a, b] [p1, p2] 0 h
        = Inr ([], h(p1 := \<lparr>is_set = True, obj = PositionalOption_string n1 hlp1 r1 a\<rparr>,
                     p2 := \<lparr>is_set = True, obj = PositionalOption_string n2 hlp2 r2 b\<rparr>))"
    by (intro two_positionals[where ?v1.0 = v1 and ?v2.0 = v2]) blast+
qed

theorem positional_registration_order_witness:
  "parse 2 [''a'', ''b''] [0, 1] 0
      (heap_of [PositionalOption_string_new ''P1'' ''first'' True [],
                PositionalOption_string_new ''P2'' ''second'' False []])
     = Inr ([], (heap_of [PositionalOption_string_new ''P1'' ''first'' True [],
                          PositionalOption_string_new ''P2'' ''second'' False []])
                 (0 := \<lparr>is_set = True, obj = PositionalOption_string ''P1'' ''first'' True ''a''\<rparr>,
                  1 := \<lparr>is_set = True, obj = PositionalOption_string ''P2'' ''second'' False ''b''\<rparr>)) \<and>
   matches (PositionalOption_string_new ''P1'' ''first'' True []) ''-x'' \<and>
   get_param_count (obj (PositionalOption_string_new ''P1'' ''first'' True [])) = 0"
  using positional_registration_order [where ?p1.0 = 0 and ?p2.0 = 1
      and h = "heap_of [PositionalOption_string_new ''P1'' ''first'' True [],
                PositionalOption_string_new ''P2'' ''second'' False []]"
      and ?n1.0 = "''P1''" and ?hlp1.0 = "''first''" and ?r1.0 = True and ?v1.0 = "[]"
      and ?n2.0 = "''P2''" and ?hlp2.0 = "''second''" and ?r2.0 = False and ?v2.0 = "[]"
      and a = "''a''" and b = "''b''"
      and opt = "PositionalOption_string_new ''P1'' ''first'' True []" and tok = "''-x''", THEN conjunct2,
      THEN conjunct2, THEN conjunct2]
    positional_registration_order [where opt = "PositionalOption_string_new ''P1'' ''first'' True []"
      and tok = "''-x''", THEN conjunct1]
  by (simp add: heap_of_def PositionalOption_string_new_def)






section \<open>The value after a failed conversion\<close>

lemma arity_one_handle_match:
  assumes "get_param_count (obj (h p)) = 1"
    and "0 \<le> i" and "i + 1 < argc" and "argc = int (length argv)" and "argc \<le> INT_MAX"
  shows "handle_match i p argc argv h =
     (case OptionBase_parse (h p) [argv ! nat i, argv ! nat (i + 1)] of
        Inl (e, o') \<Rightarrow> Inl (e, h(p := o'))
      | Inr o' \<Rightarrow> Inr (i + 1, h(p := o')))"
proof -
  have lt: "Suc (nat i) < length argv" using assms(2,3,4) by linarith
  have n1: "nat (i + 1) = Suc (nat i)" using assms(2) by linarith
  have "drop (nat i) argv = argv ! nat i # argv ! Suc (nat i) # drop (Suc (Suc (nat i))) argv"
    using lt by (simp add: Cons_nth_drop_Suc)
  then have sl: "take (nat 1 + 1) (drop (nat i) argv) = [argv ! nat i, argv ! nat (i + 1)]"
    unfolding n1 by simp
  have "handle_match i p argc argv h =
     (case OptionBase_parse (h p) (take (nat 1 + 1) (drop (nat i) argv)) of
        Inl (e, o') \<Rightarrow> Inl (e, h(p := o'))
      | Inr o' \<Rightarrow> Inr (i + 1, h(p := o')))"
    using assms by (intro handle_match_consume) simp_all
  then show ?thesis unfolding sl .
qed

lemma arity_one_throw:
  assumes "get_param_count (obj (h p)) = 1"
    and "0 \<le> i" and "i + 1 < argc" and "argc = int (length argv)" and "argc \<le> INT_MAX"
    and "OptionBase_parse (h p) [argv ! nat i, argv ! nat (i + 1)] = Inl (e, o')"
  shows "handle_match i p argc argv h = Inl (e, h(p := o'))"
    and "match_option (argv ! nat i) opts h = Some p \<Longrightarrow>
      parse_loop i argc argv opts u h = Inl (e, u, h(p := o'))"
proof -
  show hm: "handle_match i p argc argv h = Inl (e, h(p := o'))"
    unfolding arity_one_handle_match[where h = h and p = p, OF assms(1-5)] using assms(6) by simp
  have at: "argv_at argv i = Some (argv ! nat i)"
    using assms(2,3,4) by (simp add: argv_at_def)
  show "parse_loop i argc argv opts u h = Inl (e, u, h(p := o'))"
    if "match_option (argv ! nat i) opts h = Some p"
    using that at hm assms(3) by (subst parse_loop.simps) simp
qed

lemma int_parse_throws_ConversionError:
  assumes "OptionBase_parse \<lparr>is_set = s, obj = KeywordOption_int ids hlp v\<rparr> [ident, tok] = Inl (e, o')
    \<or> OptionBase_parse \<lparr>is_set = s, obj = PositionalOption_int name hlp req v\<rparr> [tok] = Inl (e, o')"
  shows "e = ConversionError \<and> is_set o' = s"
  using assms
  by (auto simp: OptionBase_parse_def ConversionError_def split: prod.splits bool.splits)

text \<open>
  Claim C10 says that a failed conversion of an \<^verbatim>\<open>int\<close> descriptor always leaves the
  value 0. A token whose number is too large for an \<^verbatim>\<open>int\<close> leaves \<^verbatim>\<open>INT_MAX\<close>, and an
  empty token leaves the value as it was: the sentry of the stream fails before anything is
  extracted.
\<close>

theorem failed_conversion_value_counterexample:
  "OptionBase_parse \<lparr>is_set = False, obj = KeywordOption_int [''--count''] ''how many'' 7\<rparr>
       [''--count'', ''99999999999'']
     = Inl (ConversionError,
            \<lparr>is_set = False, obj = KeywordOption_int [''--count''] ''how many'' 2147483647\<rparr>) \<and>
   OptionBase_parse \<lparr>is_set = False, obj = KeywordOption_int [''--count''] ''how many'' 7\<rparr>
       [''--count'', []]
     = Inl (ConversionError,
            \<lparr>is_set = False, obj = KeywordOption_int [''--count''] ''how many'' 7\<rparr>)"
  by (simp add: OptionBase_parse_def extract_int_def isdigit_def isspace_def digit_val_def
      INT_MAX_def INT_MIN_def ConversionError_def)

text \<open>
  Claim C10, amended. When the conversion of an \<^verbatim>\<open>int\<close> descriptor, keyword or
  positional, fails, the exception is the ConversionError, \<^verbatim>\<open>is_set\<close> keeps the value it
  had, and the stored value is
  \<^item> 0 when no digit follows the token's leading white space and its sign, if there is
    one (\<^verbatim>\<open>"abc"\<close>, \<^verbatim>\<open>"-v"\<close>, \<^verbatim>\<open>"-"\<close>, \<^verbatim>\<open>" abc"\<close>);
  \<^item> \<^verbatim>\<open>INT_MAX\<close> or \<^verbatim>\<open>INT_MIN\<close> when the number there is beyond that bound;
  \<^item> what it was when the token is empty or blank;
  and every token that fails is of one of these kinds. Nothing is rolled back: the
  exception leaves \<^verbatim>\<open>handle_match\<close> and the scan with the descriptor in the store as
  \<^verbatim>\<open>from_string\<close> left it.
\<close>

theorem failed_conversion_value:
  "((list_all isspace lead \<and> body \<noteq> [] \<and> \<not> isspace (hd body) \<and> \<not> isdigit (hd body) \<and>
     (hd body = CHR ''-'' \<or> hd body = CHR ''+'' \<longrightarrow>
        tl body = [] \<or> \<not> isdigit (hd (tl body)))) \<longrightarrow>
      OptionBase_parse \<lparr>is_set = s, obj = KeywordOption_int ids hlp v\<rparr> [ident, lead @ body]
        = Inl (ConversionError, \<lparr>is_set = s, obj = KeywordOption_int ids hlp 0\<rparr>) \<and>
      OptionBase_parse \<lparr>is_set = s, obj = PositionalOption_int name hlp req v\<rparr> [lead @ body]
        = Inl (ConversionError, \<lparr>is_set = s, obj = PositionalOption_int name hlp req 0\<rparr>)) \<and>
   ((list_all isspace ws \<and> (sg = [] \<or> sg = ''+'' \<or> sg = ''-'') \<and> ds \<noteq> [] \<and>
     list_all isdigit ds \<and> (rest = [] \<or> \<not> isdigit (hd rest)) \<and>
     n = (if sg = ''-'' then - digits_val 0 ds else digits_val 0 ds) \<and>
     (n < INT_MIN \<or> INT_MAX < n)) \<longrightarrow>
      OptionBase_parse \<lparr>is_set = s, obj = KeywordOption_int ids hlp v\<rparr>
          [ident, ws @ sg @ ds @ rest]
        = Inl (ConversionError,
               \<lparr>is_set = s, obj = KeywordOption_int ids hlp (if n < INT_MIN then INT_MIN else INT_MAX)\<rparr>) \<and>
      OptionBase_parse \<lparr>is_set = s, obj = PositionalOption_int name hlp req v\<rparr>
          [ws @ sg @ ds @ rest]
        = Inl (ConversionError,
               \<lparr>is_set = s,
                  obj = PositionalOption_int name hlp req (if n < INT_MIN then INT_MIN else INT_MAX)\<rparr>)) \<and>
   (list_all isspace blank \<longrightarrow>
      OptionBase_parse \<lparr>is_set = s, obj = KeywordOption_int ids hlp v\<rparr> [ident, blank]
        = Inl (ConversionError, \<lparr>is_set = s, obj = KeywordOption_int ids hlp v\<rparr>) \<and>
      OptionBase_parse \<lparr>is_set = s, obj = PositionalOption_int name hlp req v\<rparr> [blank]
        = Inl (ConversionError, \<lparr>is_set = s, obj = PositionalOption_int name hlp req v\<rparr>)) \<and>
   ((OptionBase_parse \<lparr>is_set = s, obj = KeywordOption_int ids hlp v\<rparr> [ident, tok] = Inl (e, o') \<or>
     OptionBase_parse \<lparr>is_set = s, obj = PositionalOption_int name hlp req v\<rparr> [tok] = Inl (e, o')) \<longrightarrow>
      e = ConversionError \<and> is_set o' = s \<and>
      (list_all isspace tok \<or>
       (\<exists>ws body. tok = ws @ body \<and> list_all isspace ws \<and> body \<noteq> [] \<and>
          \<not> isspace (hd body) \<and> \<not> isdigit (hd body) \<and>
          (hd body = CHR ''-'' \<or> hd body = CHR ''+'' \<longrightarrow>
             tl body = [] \<or> \<not> isdigit (hd (tl body)))) \<or>
       (\<exists>ws sg ds rest. tok = ws @ sg @ ds @ rest \<and> list_all isspace ws \<and>
          (sg = [] \<or> sg = ''+'' \<or> sg = ''-'') \<and> ds \<noteq> [] \<and> list_all isdigit ds \<and>
          (rest = [] \<or> \<not> isdigit (hd rest)) \<and>
          ((if sg = ''-'' then - digits_val 0 ds else digits_val 0 ds) < INT_MIN \<or>
           INT_MAX < (if sg = ''-'' then - digits_val 0 ds else digits_val 0 ds))))) \<and>
   ((get_param_count (obj (h p)) = 1 \<and> 0 \<le> i \<and> i + 1 < argc \<and>
     argc = int (length argv) \<and> argc \<le> INT_MAX \<and>
     OptionBase_parse (h p) [argv ! nat i, argv ! nat (i + 1)] = Inl (e, o')) \<longrightarrow>
      handle_match i p argc argv h = Inl (e, h(p := o')) \<and>
      (match_option (argv ! nat i) opts h = Some p \<longrightarrow>
         parse_loop i argc argv opts u h = Inl (e, u, h(p := o'))))"
proof (intro conjI impI)
  assume "list_all isspace lead \<and> body \<noteq> [] \<and> \<not> isspace (hd body) \<and> \<not> isdigit (hd body) \<and>
     (hd body = CHR ''-'' \<or> hd body = CHR ''+'' \<longrightarrow>
        tl body = [] \<or> \<not> isdigit (hd (tl body)))"
  then have e: "extract_int (lead @ body) v = (True, 0)"
    by (intro extract_int_digitless) blast+
  show "OptionBase_parse \<lparr>is_set = s, obj = KeywordOption_int ids hlp v\<rparr> [ident, lead @ body]
        = Inl (ConversionError, \<lparr>is_set = s, obj = KeywordOption_int ids hlp 0\<rparr>)"
    using e by (rule int_parse_failure)
  show "OptionBase_parse \<lparr>is_set = s, obj = PositionalOption_int name hlp req v\<rparr> [lead @ body]
        = Inl (ConversionError, \<lparr>is_set = s, obj = PositionalOption_int name hlp req 0\<rparr>)"
    using e by (rule int_parse_failure)
next
  assume a: "list_all isspace ws \<and> (sg = [] \<or> sg = ''+'' \<or> sg = ''-'') \<and> ds \<noteq> [] \<and>
     list_all isdigit ds \<and> (rest = [] \<or> \<not> isdigit (hd rest)) \<and>
     n = (if sg = ''-'' then - digits_val 0 ds else digits_val 0 ds) \<and>
     (n < INT_MIN \<or> INT_MAX < n)"
  have "extract_int (ws @ sg @ ds @ rest) v =
     (if n < INT_MIN then (True, INT_MIN) else if INT_MAX < n then (True, INT_MAX) else (False, n))"
    using a by (intro extract_int_number) blast+
  then have e: "extract_int (ws @ sg @ ds @ rest) v
      = (True, if n < INT_MIN then INT_MIN else INT_MAX)"
    using a by auto
  show "OptionBase_parse \<lparr>is_set = s, obj = KeywordOption_int ids hlp v\<rparr>
          [ident, ws @ sg @ ds @ rest]
        = Inl (ConversionError,
               \<lparr>is_set = s, obj = KeywordOption_int ids hlp (if n < INT_MIN then INT_MIN else INT_MAX)\<rparr>)"
    using e by (rule int_parse_failure)
  show "OptionBase_parse \<lparr>is_set = s, obj = PositionalOption_int name hlp req v\<rparr>
          [ws @ sg @ ds @ rest]
        = Inl (ConversionError,
               \<lparr>is_set = s,
                  obj = PositionalOption_int name hlp req (if n < INT_MIN then INT_MIN else INT_MAX)\<rparr>)"
    using e by (rule int_parse_failure)
next
  assume "list_all isspace blank"
  then have e: "extract_int blank v = (True, v)"
    by (rule extract_int_blank)
  show "OptionBase_parse \<lparr>is_set = s, obj = KeywordOption_int ids hlp v\<rparr> [ident, blank]
        = Inl (ConversionError, \<lparr>is_set = s, obj = KeywordOption_int ids hlp v\<rparr>)"
    using e by (rule int_parse_failure)
  show "OptionBase_parse \<lparr>is_set = s, obj = PositionalOption_int name hlp req v\<rparr> [blank]
        = Inl (ConversionError, \<lparr>is_set = s, obj = PositionalOption_int name hlp req v\<rparr>)"
    using e by (rule int_parse_failure)
next
  assume f: "OptionBase_parse \<lparr>is_set = s, obj = KeywordOption_int ids hlp v\<rparr> [ident, tok] = Inl (e, o') \<or>
     OptionBase_parse \<lparr>is_set = s, obj = PositionalOption_int name hlp req v\<rparr> [tok] = Inl (e, o')"
  show "e = ConversionError" "is_set o' = s"
    using int_parse_throws_ConversionError[OF f] by simp_all
  have fail: "fst (extract_int tok v)"
    using f by (auto simp: OptionBase_parse_def split: prod.splits bool.splits)
  consider (blank) "list_all isspace tok"
    | (nodigit) "\<exists>ws body. tok = ws @ body \<and> list_all isspace ws \<and> body \<noteq> [] \<and>
          \<not> isspace (hd body) \<and> \<not> isdigit (hd body) \<and>
          (hd body = CHR ''-'' \<or> hd body = CHR ''+'' \<longrightarrow>
             tl body = [] \<or> \<not> isdigit (hd (tl body)))"
    | (number) ws sg ds rest where "tok = ws @ sg @ ds @ rest" "list_all isspace ws"
      "sg = [] \<or> sg = ''+'' \<or> sg = ''-''" "ds \<noteq> []" "list_all isdigit ds"
      "rest = [] \<or> \<not> isdigit (hd rest)"
    using token_kinds[of tok] by blast
  then
  show "list_all isspace tok \<or>
       (\<exists>ws body. tok = ws @ body \<and> list_all isspace ws \<and> body \<noteq> [] \<and>
          \<not> isspace (hd body) \<and> \<not> isdigit (hd body) \<and>
          (hd body = CHR ''-'' \<or> hd body = CHR ''+'' \<longrightarrow>
             tl body = [] \<or> \<not> isdigit (hd (tl body)))) \<or>
       (\<exists>ws sg ds rest. tok = ws @ sg @ ds @ rest \<and> list_all isspace ws \<and>
          (sg = [] \<or> sg = ''+'' \<or> sg = ''-'') \<and> ds \<noteq> [] \<and> list_all isdigit ds \<and>
          (rest = [] \<or> \<not> isdigit (hd rest)) \<and>
          ((if sg = ''-'' then - digits_val 0 ds else digits_val 0 ds) < INT_MIN \<or>
           INT_MAX < (if sg = ''-'' then - digits_val 0 ds else digits_val 0 ds)))"
  proof cases
    case blank
    then show ?thesis by blast
  next
    case nodigit
    then show ?thesis by blast
  next
    case d: number
    define n where "n = (if sg = ''-'' then - digits_val 0 ds else digits_val 0 ds)"
    have "extract_int (ws @ sg @ ds @ rest) v =
       (if n < INT_MIN then (True, INT_MIN) else if INT_MAX < n then (True, INT_MAX) else (False, n))"
      using d(2-6) n_def by (rule extract_int_number)
    then have "n < INT_MIN \<or> INT_MAX < n"
      using fail unfolding d(1) by (auto split: if_splits)
    then show ?thesis
      using d unfolding n_def by blast
  qed
next
  assume a: "get_param_count (obj (h p)) = 1 \<and> 0 \<le> i \<and> i + 1 < argc \<and>
     argc = int (length argv) \<and> argc \<le> INT_MAX \<and>
     OptionBase_parse (h p) [argv ! nat i, argv ! nat (i + 1)] = Inl (e, o')"
  show "handle_match i p argc argv h = Inl (e, h(p := o'))"
    using a by (intro arity_one_throw) blast+
  show "parse_loop i argc argv opts u h = Inl (e, u, h(p := o'))"
    if "match_option (argv ! nat i) opts h = Some p"
    using a that by (intro arity_one_throw) blast+
qed

theorem failed_conversion_value_witness:
  "OptionBase_parse \<lparr>is_set = True, obj = KeywordOption_int [''--count''] ''how many'' 7\<rparr>
       [''--count'', ''-v'']
     = Inl (ConversionError, \<lparr>is_set = True, obj = KeywordOption_int [''--count''] ''how many'' 0\<rparr>) \<and>
   OptionBase_parse \<lparr>is_set = True, obj = PositionalOption_int ''n'' ''how many'' True 7\<rparr>
       ['' abc'']
     = Inl (ConversionError, \<lparr>is_set = True, obj = PositionalOption_int ''n'' ''how many'' True 0\<rparr>) \<and>
   OptionBase_parse \<lparr>is_set = True, obj = PositionalOption_int ''n'' ''how many'' True 7\<rparr>
       ['' -3000000000'']
     = Inl (ConversionError,
            \<lparr>is_set = True, obj = PositionalOption_int ''n'' ''how many'' True (- 2147483648)\<rparr>) \<and>
   OptionBase_parse \<lparr>is_set = True, obj = KeywordOption_int [''--count''] ''how many'' 7\<rparr>
       [''--count'', '' '']
     = Inl (ConversionError, \<lparr>is_set = True, obj = KeywordOption_int [''--count''] ''how many'' 7\<rparr>) \<and>
   handle_match 1 0 3 [''prog'', ''--count'', ''-v'']
       (heap_of [\<lparr>is_set = True, obj = KeywordOption_int [''--count''] ''how many'' 7\<rparr>])
     = Inl (ConversionError,
            (heap_of [\<lparr>is_set = True, obj = KeywordOption_int [''--count''] ''how many'' 7\<rparr>])
              (0 := \<lparr>is_set = True, obj = KeywordOption_int [''--count''] ''how many'' 0\<rparr>)) \<and>
   parse_loop 1 3 [''prog'', ''--count'', ''-v''] [0] []
       (heap_of [\<lparr>is_set = True, obj = KeywordOption_int [''--count''] ''how many'' 7\<rparr>])
     = Inl (ConversionError, [],
            (heap_of [\<lparr>is_set = True, obj = KeywordOption_int [''--count''] ''how many'' 7\<rparr>])
              (0 := \<lparr>is_set = True, obj = KeywordOption_int [''--count''] ''how many'' 0\<rparr>))"
proof -
  let ?K = "\<lparr>is_set = True, obj = KeywordOption_int [''--count''] ''how many'' 7\<rparr>"
  let ?Z = "\<lparr>is_set = True, obj = KeywordOption_int [''--count''] ''how many'' 0\<rparr>"
  note t = failed_conversion_value [where lead = "[]" and body = "''-v''" and s = True
      and ids = "[''--count'']" and hlp = "''how many''" and v = 7 and ident = "''--count''"
      and name = "''n''" and req = True
      and ws = "'' ''" and sg = "''-''" and ds = "''3000000000''" and rest = "[]"
      and n = "- 3000000000" and blank = "'' ''" and tok = "''-v''" and e = ConversionError
      and o' = ?Z and h = "heap_of [?K]" and p = 0 and i = 1 and argc = 3
      and argv = "[''prog'', ''--count'', ''-v'']" and opts = "[0]" and u = "[]"]
  note t2 = failed_conversion_value [where lead = "'' ''" and body = "''abc''" and s = True
      and name = "''n''" and hlp = "''how many''" and req = True and v = 7, THEN conjunct1]
  note digitless = t [THEN conjunct1]
  note overflow = t [THEN conjunct2, THEN conjunct1]
  note blank = t [THEN conjunct2, THEN conjunct2, THEN conjunct1]
  note thrown = t [THEN conjunct2, THEN conjunct2, THEN conjunct2, THEN conjunct2]
  have k: "OptionBase_parse ?K [''--count'', ''-v''] = Inl (ConversionError, ?Z)"
    using digitless by (simp add: isdigit_def isspace_def)
  have a: "OptionBase_parse \<lparr>is_set = True, obj = PositionalOption_int ''n'' ''how many'' True 7\<rparr>
       ['' abc'']
     = Inl (ConversionError, \<lparr>is_set = True, obj = PositionalOption_int ''n'' ''how many'' True 0\<rparr>)"
    using t2 by (simp add: isdigit_def isspace_def)
  have ov: "OptionBase_parse \<lparr>is_set = True, obj = PositionalOption_int ''n'' ''how many'' True 7\<rparr>
       ['' -3000000000'']
     = Inl (ConversionError,
            \<lparr>is_set = True, obj = PositionalOption_int ''n'' ''how many'' True (- 2147483648)\<rparr>)"
    using overflow by (simp add: isdigit_def isspace_def digit_val_def INT_MAX_def INT_MIN_def)
  have bl: "OptionBase_parse ?K [''--count'', '' ''] = Inl (ConversionError, ?K)"
    using blank by (simp add: isspace_def)
  have m: "match_option ''--count'' [0] (heap_of [?K]) = Some 0"
    by (simp add: eval_defs)
  have hp: "heap_of [?K] 0 = ?K" by (simp add: heap_of_def)
  have rest: "handle_match 1 0 3 [''prog'', ''--count'', ''-v''] (heap_of [?K])
       = Inl (ConversionError, (heap_of [?K])(0 := ?Z)) \<and>
     parse_loop 1 3 [''prog'', ''--count'', ''-v''] [0] [] (heap_of [?K])
       = Inl (ConversionError, [], (heap_of [?K])(0 := ?Z))"
    using thrown k m hp by (simp add: INT_MAX_def)
  show ?thesis
    using k a ov bl rest by blast
qed

section \<open>The unrecognised tokens\<close>












end
